theory Spec2Isabelle
  imports Complex_Main "HOL-Library.AList" "HOL-Library.Product_Lexorder"
begin

section \<open>Python values used by the retrieval pipeline\<close>

text \<open>
  Texts are Python \<^verbatim>\<open>str\<close> values; they are modelled as HOL strings, so the model
  covers texts whose code points are below 256. Python \<^verbatim>\<open>int\<close> is \<^typ>\<open>int\<close>.
  A Python \<^verbatim>\<open>float\<close> is an IEEE 754 binary64 number; a finite one is represented by
  the rational it denotes, and every arithmetic operation rounds its exact result to the
  nearest binary64 number, ties to even (\<open>double_round\<close>).
\<close>

datatype py_error =
  ValueError string | ZeroDivisionError | OverflowError | AttributeError | IndexError

definition is_space :: "char \<Rightarrow> bool" where
  \<comment> \<open>\<^verbatim>\<open>str.isspace\<close> and the regular expression class \<^verbatim>\<open>\s\<close> on ASCII\<close>
  "is_space c =
     (c \<in> set [CHR 0x09, CHR 0x0A, CHR 0x0B, CHR 0x0C, CHR 0x0D,
                CHR 0x1C, CHR 0x1D, CHR 0x1E, CHR 0x1F, CHR '' ''])"

definition lower_char :: "char \<Rightarrow> char" where
  "lower_char c =
     (case map_of (zip ''ABCDEFGHIJKLMNOPQRSTUVWXYZ'' ''abcdefghijklmnopqrstuvwxyz'') c of
        Some d \<Rightarrow> d
      | None \<Rightarrow> c)"

definition upper_char :: "char \<Rightarrow> char" where
  "upper_char c =
     (case map_of (zip ''abcdefghijklmnopqrstuvwxyz'' ''ABCDEFGHIJKLMNOPQRSTUVWXYZ'') c of
        Some d \<Rightarrow> d
      | None \<Rightarrow> c)"

definition py_lower :: "string \<Rightarrow> string" where
  \<comment> \<open>\<^verbatim>\<open>str.lower()\<close>\<close>
  "py_lower s = map lower_char s"

definition py_upper :: "string \<Rightarrow> string" where
  \<comment> \<open>\<^verbatim>\<open>str.upper()\<close>\<close>
  "py_upper s = map upper_char s"

fun split_acc :: "string \<Rightarrow> string \<Rightarrow> string list" where
  "split_acc w [] = (if w = [] then [] else [w])"
| "split_acc w (c # cs) =
     (if is_space c then (if w = [] then split_acc [] cs else w # split_acc [] cs)
      else split_acc (w @ [c]) cs)"

definition py_split :: "string \<Rightarrow> string list" where
  \<comment> \<open>\<^verbatim>\<open>str.split()\<close> without arguments: the maximal runs of non-whitespace\<close>
  "py_split s = split_acc [] s"

definition word_ok :: "string \<Rightarrow> bool" where
  \<comment> \<open>a whitespace token: not empty and free of whitespace\<close>
  "word_ok w = (w \<noteq> [] \<and> (\<forall>c\<in>set w. \<not> is_space c))"

fun py_join :: "string \<Rightarrow> string list \<Rightarrow> string" where
  \<comment> \<open>\<^verbatim>\<open>sep.join(parts)\<close>\<close>
  "py_join sep [] = []"
| "py_join sep [x] = x"
| "py_join sep (x # y # ys) = x @ sep @ py_join sep (y # ys)"

definition py_strip :: "string \<Rightarrow> string" where
  \<comment> \<open>\<^verbatim>\<open>str.strip()\<close>\<close>
  "py_strip s = rev (dropWhile is_space (rev (dropWhile is_space s)))"

definition py_prefix :: "int \<Rightarrow> 'a list \<Rightarrow> 'a list" where
  \<comment> \<open>the slice \<^verbatim>\<open>xs[:n]\<close>; a negative \<^verbatim>\<open>n\<close> counts from the end\<close>
  "py_prefix n xs =
     (if 0 \<le> n then take (nat n) xs else take (nat (int (length xs) + n)) xs)"

definition enumerate1 :: "'a list \<Rightarrow> (int \<times> 'a) list" where
  \<comment> \<open>\<^verbatim>\<open>enumerate(xs, start=1)\<close>\<close>
  "enumerate1 xs = zip (map int [1 ..< Suc (length xs)]) xs"

section \<open>Binary64 arithmetic\<close>

function bit_length :: "int \<Rightarrow> int" where
  \<comment> \<open>\<^verbatim>\<open>int.bit_length\<close> of a non-negative integer\<close>
  "bit_length n = (if n \<le> 0 then 0 else 1 + bit_length (n div 2))"
  by pat_completeness auto
termination
  by (relation "measure nat") auto

declare bit_length.simps [simp del]

definition pow2 :: "int \<Rightarrow> rat" where
  "pow2 e = (if 0 \<le> e then 2 ^ nat e else 1 / 2 ^ nat (- e))"

definition ilog2 :: "rat \<Rightarrow> int" where
  \<comment> \<open>the exponent \<open>e\<close> with \<open>2\<^sup>e \<le> |x| < 2\<^sup>e\<^sup>+\<^sup>1\<close>, for \<open>x \<noteq> 0\<close>\<close>
  "ilog2 x =
     (let (a, b) = quotient_of \<bar>x\<bar>;
          d = bit_length a - bit_length b
      in if pow2 d \<le> \<bar>x\<bar> then d else d - 1)"

definition round_half_even :: "rat \<Rightarrow> int" where
  "round_half_even m =
     (let n = \<lfloor>m\<rfloor>; f = m - of_int n
      in if f < 1 / 2 then n else if 1 / 2 < f then n + 1 else if even n then n else n + 1)"

definition double_round :: "rat \<Rightarrow> rat" where
  \<comment> \<open>the binary64 number nearest to \<open>x\<close>: 53 significant bits, and multiples of
      \<open>2\<^sup>-\<^sup>1\<^sup>0\<^sup>7\<^sup>4\<close> below the normal range; the exponent is not bounded above, the
      operations below test for overflow where the source can reach it\<close>
  "double_round x =
     (if x = 0 then 0
      else let e = max (ilog2 x) (- 1022); q = pow2 (e - 52)
           in of_int (round_half_even (x / q)) * q)"

definition float_of_int :: "int \<Rightarrow> py_error + rat" where
  \<comment> \<open>the conversion of an \<^verbatim>\<open>int\<close> operand of a float operation; Python raises
      \<^verbatim>\<open>OverflowError\<close> (int too large to convert to float) when the rounded value
      reaches \<open>2\<^sup>1\<^sup>0\<^sup>2\<^sup>4\<close>, that is from \<open>2\<^sup>1\<^sup>0\<^sup>2\<^sup>4 - 2\<^sup>9\<^sup>7\<^sup>0\<close> on\<close>
  "float_of_int n =
     (let x = double_round (of_int n)
      in if x \<noteq> 0 \<and> 1024 \<le> ilog2 x then Inl OverflowError else Inr x)"

definition float_truediv :: "rat \<Rightarrow> rat \<Rightarrow> py_error + rat" where
  \<comment> \<open>\<^verbatim>\<open>x / y\<close> on floats, for quotients within the binary64 range\<close>
  "float_truediv x y = (if y = 0 then Inl ZeroDivisionError else Inr (double_round (x / y)))"

definition float_add :: "rat \<Rightarrow> rat \<Rightarrow> rat" where
  \<comment> \<open>\<^verbatim>\<open>x + y\<close> on floats, for sums within the binary64 range\<close>
  "float_add x y = double_round (x + y)"

definition float_mul :: "rat \<Rightarrow> rat \<Rightarrow> rat" where
  \<comment> \<open>\<^verbatim>\<open>x * y\<close> on floats, for products within the binary64 range\<close>
  "float_mul x y = double_round (x * y)"


section \<open>Regular expressions (Python's re module)\<close>

text \<open>
  The patterns of the repository use literals, character classes, greedy repetition of a
  single character or class, concatenation, alternation, one capturing group, \<^verbatim>\<open>\b\<close> and one
  look-behind. \<open>rx_match\<close> returns every way a pattern can match at a position, in the
  order in which Python's backtracking matcher tries them, so the head of the list is the
  match Python reports. \<open>scan\<close> is the loop of \<^verbatim>\<open>re.finditer\<close>: the leftmost match, then
  the search resumes where the match ended.
\<close>

datatype cclass = Digit | Space | UpperAZ | LowerAZ | Letter | NotNewline | OneOf string

datatype atom = Chr char | Cls cclass

datatype rx =
    Eps
  | Atom atom
  | Rep atom nat "nat option"
  | Then rx rx
  | Alt rx rx
  | Group rx
  | WordB
  | Behind cclass

definition in_class :: "cclass \<Rightarrow> char \<Rightarrow> bool" where
  "in_class cls c =
     (case cls of
        Digit \<Rightarrow> c \<in> set ''0123456789''
      | Space \<Rightarrow> is_space c
      | UpperAZ \<Rightarrow> c \<in> set ''ABCDEFGHIJKLMNOPQRSTUVWXYZ''
      | LowerAZ \<Rightarrow> c \<in> set ''abcdefghijklmnopqrstuvwxyz''
      | Letter \<Rightarrow> c \<in> set ''abcdefghijklmnopqrstuvwxyzABCDEFGHIJKLMNOPQRSTUVWXYZ''
      | NotNewline \<Rightarrow> c \<noteq> CHR 0x0A
      | OneOf s \<Rightarrow> c \<in> set s)"

definition atom_ok :: "atom \<Rightarrow> char \<Rightarrow> bool" where
  "atom_ok a c = (case a of Chr d \<Rightarrow> c = d | Cls cls \<Rightarrow> in_class cls c)"

definition is_word_char :: "char \<Rightarrow> bool" where
  "is_word_char c =
     (c \<in> set ''abcdefghijklmnopqrstuvwxyzABCDEFGHIJKLMNOPQRSTUVWXYZ0123456789_'')"

record mstate =
  ms_prev :: "char option"
  ms_rest :: string
  ms_pos :: nat
  ms_group1 :: "string option"

definition advance :: "nat \<Rightarrow> mstate \<Rightarrow> mstate" where
  "advance n s =
     (if n = 0 then s
      else s\<lparr>ms_prev := Some (ms_rest s ! (n - 1)), ms_rest := drop n (ms_rest s), ms_pos := ms_pos s + n\<rparr>)"

definition at_word_boundary :: "mstate \<Rightarrow> bool" where
  "at_word_boundary s =
     ((case ms_prev s of None \<Rightarrow> False | Some c \<Rightarrow> is_word_char c)
      \<noteq> (case ms_rest s of [] \<Rightarrow> False | c # _ \<Rightarrow> is_word_char c))"

fun rx_match :: "rx \<Rightarrow> mstate \<Rightarrow> mstate list" where
  "rx_match Eps s = [s]"
| "rx_match (Atom a) s =
     (case ms_rest s of
        [] \<Rightarrow> []
      | c # cs \<Rightarrow> if atom_ok a c then [advance 1 s] else [])"
| "rx_match (Rep a lo hi) s =
     (let run = length (takeWhile (atom_ok a) (ms_rest s));
          most = (case hi of None \<Rightarrow> run | Some h \<Rightarrow> min h run)
      in map (\<lambda>n. advance n s) (rev [lo ..< Suc most]))"
| "rx_match (Then r1 r2) s = concat (map (rx_match r2) (rx_match r1 s))"
| "rx_match (Alt r1 r2) s = rx_match r1 s @ rx_match r2 s"
| "rx_match (Group r) s =
     map (\<lambda>t. t\<lparr>ms_group1 := Some (take (ms_pos t - ms_pos s) (ms_rest s))\<rparr>) (rx_match r s)"
| "rx_match WordB s = (if at_word_boundary s then [s] else [])"
| "rx_match (Behind cls) s =
     (case ms_prev s of None \<Rightarrow> [] | Some c \<Rightarrow> if in_class cls c then [s] else [])"

fun nullable :: "rx \<Rightarrow> bool" where
  \<comment> \<open>the pattern may match without consuming a character\<close>
  "nullable Eps = True"
| "nullable (Atom a) = False"
| "nullable (Rep a lo hi) = (lo = 0)"
| "nullable (Then r1 r2) = (nullable r1 \<and> nullable r2)"
| "nullable (Alt r1 r2) = (nullable r1 \<or> nullable r2)"
| "nullable (Group r) = nullable r"
| "nullable WordB = True"
| "nullable (Behind cls) = True"

fun firsts :: "rx \<Rightarrow> char \<Rightarrow> bool" where
  \<comment> \<open>the characters with which a non-empty match of the pattern can begin\<close>
  "firsts Eps c = False"
| "firsts (Atom a) c = atom_ok a c"
| "firsts (Rep a lo hi) c = atom_ok a c"
| "firsts (Then r1 r2) c = (firsts r1 c \<or> (nullable r1 \<and> firsts r2 c))"
| "firsts (Alt r1 r2) c = (firsts r1 c \<or> firsts r2 c)"
| "firsts (Group r) c = firsts r c"
| "firsts WordB c = False"
| "firsts (Behind cls) c = False"

fun ignorecase :: "rx \<Rightarrow> rx" where
  \<comment> \<open>the flag \<^verbatim>\<open>re.IGNORECASE\<close>: a letter matches in both cases\<close>
  "ignorecase (Atom (Chr c)) = Atom (Cls (OneOf [lower_char c, upper_char c]))"
| "ignorecase (Atom (Cls UpperAZ)) = Atom (Cls Letter)"
| "ignorecase (Atom (Cls LowerAZ)) = Atom (Cls Letter)"
| "ignorecase (Rep (Chr c) lo hi) = Rep (Cls (OneOf [lower_char c, upper_char c])) lo hi"
| "ignorecase (Rep (Cls UpperAZ) lo hi) = Rep (Cls Letter) lo hi"
| "ignorecase (Rep (Cls LowerAZ) lo hi) = Rep (Cls Letter) lo hi"
| "ignorecase (Then r1 r2) = Then (ignorecase r1) (ignorecase r2)"
| "ignorecase (Alt r1 r2) = Alt (ignorecase r1) (ignorecase r2)"
| "ignorecase (Group r) = Group (ignorecase r)"
| "ignorecase r = r"

record rmatch =
  m_start :: nat
  m_end :: nat
  m_group0 :: string
  m_group1 :: "string option"

definition match_at :: "rx \<Rightarrow> char option \<Rightarrow> string \<Rightarrow> nat \<Rightarrow> rmatch option" where
  "match_at r prev text p =
     (case rx_match r \<lparr>ms_prev = prev, ms_rest = text, ms_pos = p, ms_group1 = None\<rparr> of
        [] \<Rightarrow> None
      | t # _ \<Rightarrow> Some \<lparr>m_start = p, m_end = ms_pos t, m_group0 = take (ms_pos t - p) text,
                       m_group1 = ms_group1 t\<rparr>)"

fun scan :: "rx \<Rightarrow> nat \<Rightarrow> char option \<Rightarrow> string \<Rightarrow> nat \<Rightarrow> rmatch list" where
  "scan r skip prev [] p =
     (if skip > 0 then []
      else case match_at r prev [] p of None \<Rightarrow> [] | Some m \<Rightarrow> [m])"
| "scan r skip prev (c # cs) p =
     (if skip > 0 then scan r (skip - 1) (Some c) cs (p + 1)
      else case match_at r prev (c # cs) p of
             None \<Rightarrow> scan r 0 (Some c) cs (p + 1)
           | Some m \<Rightarrow> m # scan r (m_end m - p - 1) (Some c) cs (p + 1))"

definition finditer :: "rx \<Rightarrow> string \<Rightarrow> rmatch list" where
  "finditer r text = scan r 0 None text 0"

fun seq :: "rx list \<Rightarrow> rx" where
  "seq [] = Eps"
| "seq [r] = r"
| "seq (r # rs) = Then r (seq rs)"

fun alts :: "rx list \<Rightarrow> rx" where
  "alts [] = Eps"
| "alts [r] = r"
| "alts (r # rs) = Alt r (alts rs)"

definition lit :: "string \<Rightarrow> rx" where
  "lit s = seq (map (\<lambda>c. Atom (Chr c)) s)"

definition ws1 :: rx where
  \<comment> \<open>\<^verbatim>\<open>\s+\<close>\<close>
  "ws1 = Rep (Cls Space) 1 None"

definition ws0 :: rx where
  \<comment> \<open>\<^verbatim>\<open>\s*\<close>\<close>
  "ws0 = Rep (Cls Space) 0 None"

definition digits1 :: rx where
  \<comment> \<open>\<^verbatim>\<open>\d+\<close>\<close>
  "digits1 = Rep (Cls Digit) 1 None"

definition opt :: "char \<Rightarrow> rx" where
  \<comment> \<open>an optional character, as in \<^verbatim>\<open>\.?\<close>\<close>
  "opt c = Rep (Chr c) 0 (Some 1)"

definition phrase :: "string list \<Rightarrow> rx" where
  \<comment> \<open>\<^verbatim>\<open>\s+\<close> before each of the words: \<^verbatim>\<open>\s+of\s+the\s+Constitution\<close>\<close>
  "phrase ws = seq (concat (map (\<lambda>w. [ws1, lit w]) ws))"

definition words :: "string list \<Rightarrow> rx" where
  \<comment> \<open>words with \<^verbatim>\<open>\s+\<close> between them: \<^verbatim>\<open>Indian\s+Penal\s+Code\<close>\<close>
  "words ws = (case ws of [] \<Rightarrow> Eps | w # rest \<Rightarrow> seq (lit w # concat (map (\<lambda>w. [ws1, lit w]) rest)))"


section \<open>Query enhancer: deduplication (retrieval/query\_enhancer.py)\<close>

definition dedup_step :: "string set \<times> string list \<Rightarrow> string \<Rightarrow> string set \<times> string list" where
  \<comment> \<open>one round of the loop of \<^verbatim>\<open>_deduplicate_query\<close> on the state \<^verbatim>\<open>(seen, unique_words)\<close>\<close>
  "dedup_step st word =
     (let word_lower = py_lower word
      in if word_lower \<notin> fst st then (insert word_lower (fst st), snd st @ [word]) else st)"

definition deduplicate_query :: "string \<Rightarrow> string" where
  "deduplicate_query query =
     (let words = py_split query;
          unique_words = snd (foldl dedup_step ({}, []) words)
      in py_join '' '' unique_words)"


section \<open>Legal entities and overlap resolution (ner/legal\_ner.py)\<close>

datatype EntityType =
  PERSON | CASE_NUMBER | LEGAL_SECTION | COURT | DATE | PENALTY | LEGAL_TERM | STATUTE
  | ORGANIZATION | JUDGE | LAWYER

record Entity =
  etext :: string
  entity_type :: EntityType
  start :: int
  eend :: int
  confidence :: rat
  metadata :: "(string \<times> string) list"

definition overlaps :: "Entity \<Rightarrow> Entity \<Rightarrow> bool" where
  \<comment> \<open>the test of the inner loop of \<^verbatim>\<open>_remove_overlaps\<close>\<close>
  "overlaps entity existing =
     (\<not> (eend entity \<le> start existing \<or> start entity \<ge> eend existing))"

definition overlap_step :: "Entity list \<Rightarrow> Entity \<Rightarrow> Entity list" where
  \<comment> \<open>one round of the outer loop: the inner loop stops at the first overlapping
      accepted entity; \<^verbatim>\<open>list.remove\<close> deletes the first equal element\<close>
  "overlap_step filtered entity =
     (case find (overlaps entity) filtered of
        None \<Rightarrow> filtered @ [entity]
      | Some existing \<Rightarrow>
          if confidence entity > confidence existing
          then remove1 existing filtered @ [entity]
          else filtered)"

definition remove_overlaps :: "Entity list \<Rightarrow> Entity list" where
  "remove_overlaps entities =
     (if entities = [] then []
      else let sorted_entities = sort_key (\<lambda>e. (start e, - confidence e)) entities;
               filtered = foldl overlap_step [] sorted_entities
           in sort_key start filtered)"

text \<open>The pattern tables of \<^verbatim>\<open>LegalNER.__init__\<close>, in the order of the source.\<close>

definition sec_num :: rx where
  \<comment> \<open>\<^verbatim>\<open>(\d+[A-Z]?)\<close>\<close>
  "sec_num = Group (Then digits1 (Rep (Cls UpperAZ) 0 (Some 1)))"

definition crpc :: rx where
  \<comment> \<open>\<^verbatim>\<open>Cr\.?P\.?C\.?\<close>\<close>
  "crpc = seq [lit ''Cr'', opt CHR ''.'', lit ''P'', opt CHR ''.'', lit ''C'', opt CHR ''.'']"

definition section_patterns :: "(rx \<times> string) list" where
  "section_patterns =
    [(seq [lit ''Section'', ws1, sec_num, phrase [''of'', ''the'', ''Indian'', ''Penal'', ''Code'']], ''IPC''),
     (seq [lit ''Section'', ws1, sec_num, ws1, lit ''IPC''], ''IPC''),
     (seq [lit ''IPC'', ws1, lit ''Section'', ws1, sec_num], ''IPC''),
     (seq [lit ''u/s'', opt CHR ''.'', ws0, sec_num, ws1, lit ''IPC''], ''IPC''),
     (seq [lit ''under'', ws1, lit ''Section'', ws1, sec_num, ws1, lit ''IPC''], ''IPC''),
     (seq [lit ''Section'', ws1, sec_num,
           phrase [''of'', ''the'', ''Code'', ''of'', ''Criminal'', ''Procedure'']], ''CrPC''),
     (seq [lit ''Section'', ws1, sec_num, ws1, lit ''of'', ws1, crpc], ''CrPC''),
     (seq [crpc, ws1, lit ''Section'', ws1, sec_num], ''CrPC''),
     (seq [lit ''u/s'', opt CHR ''.'', ws0, sec_num, ws1, crpc], ''CrPC''),
     (seq [lit ''Section'', ws1, sec_num, phrase [''of'', ''the'', ''Evidence'', ''Act'']],
      ''Evidence_Act''),
     (seq [words [''Evidence'', ''Act'', ''Section''], ws1, sec_num], ''Evidence_Act''),
     (seq [lit ''Article'', ws1, sec_num, phrase [''of'', ''the'', ''Constitution'']],
      ''Constitution''),
     (seq [words [''Constitution'', ''Article''], ws1, sec_num], ''Constitution'')]"

definition case_num :: rx where
  \<comment> \<open>\<^verbatim>\<open>No\.?\s*(\d+\/\d+)\<close>\<close>
  "case_num = seq [lit ''No'', opt CHR ''.'', ws0, Group (seq [digits1, lit ''/'', digits1])]"

definition opt_c :: rx where
  \<comment> \<open>\<^verbatim>\<open>\(?C\)?\<close>\<close>
  "opt_c = seq [opt CHR ''('', lit ''C'', opt CHR '')'']"

definition case_number_patterns :: "rx list" where
  "case_number_patterns =
    [seq [lit ''Crl'', opt CHR ''.'', ws0, lit ''A'', opt CHR ''.'', ws0, case_num],
     seq [words [''Criminal'', ''Appeal''], ws1, case_num],
     seq [lit ''W'', opt CHR ''.'', lit ''P'', opt CHR ''.'', ws0, opt_c, ws0, case_num],
     seq [words [''Writ'', ''Petition''], ws1, case_num],
     seq [lit ''SLP'', ws0, opt_c, ws0, case_num],
     seq [words [''Special'', ''Leave'', ''Petition''], ws1, case_num],
     seq [words [''Civil'', ''Appeal''], ws1, case_num],
     seq [lit ''Cr'', opt CHR ''.'', ws0, case_num]]"

definition court_patterns :: "rx list" where
  "court_patterns =
    [words [''Supreme'', ''Court'', ''of'', ''India''],
     seq [words [''High'', ''Court'', ''of''], ws1,
          Group (Then (Atom (Cls UpperAZ)) (Rep (Cls LowerAZ) 1 None))],
     words [''District'', ''Court''],
     words [''Sessions'', ''Court''],
     words [''Magistrate'', ''Court'']]"

definition statute_patterns :: "rx list" where
  "statute_patterns =
    [words [''Indian'', ''Penal'', ''Code''],
     words [''Code'', ''of'', ''Criminal'', ''Procedure''],
     words [''Evidence'', ''Act''],
     words [''Constitution'', ''of'', ''India''],
     words [''Criminal'', ''Procedure'', ''Code'']]"

definition whole_word :: "rx \<Rightarrow> rx" where
  \<comment> \<open>\<^verbatim>\<open>\b...\b\<close>\<close>
  "whole_word r = seq [WordB, r, WordB]"

definition legal_term_patterns :: "rx list" where
  "legal_term_patterns =
    map whole_word
      [lit ''Acquittal'', lit ''Conviction'', lit ''Bail'', lit ''Appeal'', lit ''Revision'',
       lit ''Petition'', lit ''Writ'', words [''Habeas'', ''Corpus''], lit ''Mandamus'']"

definition date_patterns :: "rx list" where
  "date_patterns =
    [seq [Rep (Cls Digit) 1 (Some 2), Atom (Cls (OneOf ''./-'')), Rep (Cls Digit) 1 (Some 2),
          Atom (Cls (OneOf ''./-'')), Rep (Cls Digit) 4 (Some 4)],
     seq [Rep (Cls Digit) 1 (Some 2), ws1,
          alts (map lit [''January'', ''February'', ''March'', ''April'', ''May'', ''June'',
                         ''July'', ''August'', ''September'', ''October'', ''November'',
                         ''December'']),
          ws1, Rep (Cls Digit) 4 (Some 4)]]"

definition extract_sections :: "string \<Rightarrow> Entity list" where
  "extract_sections text =
     concat (map (\<lambda>(pattern, act_name).
        map (\<lambda>m. let section_num = (case m_group1 m of Some g \<Rightarrow> g | None \<Rightarrow> [])
                 in \<lparr>etext = act_name @ '' Section '' @ section_num,
                     entity_type = LEGAL_SECTION, start = int (m_start m), eend = int (m_end m),
                     confidence = 9 / 10,
                     metadata = [(''act'', act_name), (''section_number'', section_num)]\<rparr>)
            (finditer (ignorecase pattern) text)) section_patterns)"

definition extract_case_numbers :: "string \<Rightarrow> Entity list" where
  "extract_case_numbers text =
     concat (map (\<lambda>pattern.
        map (\<lambda>m. let case_num = (case m_group1 m of Some g \<Rightarrow> g | None \<Rightarrow> m_group0 m)
                 in \<lparr>etext = case_num, entity_type = CASE_NUMBER, start = int (m_start m),
                     eend = int (m_end m), confidence = 95 / 100,
                     metadata = [(''full_match'', m_group0 m)]\<rparr>)
            (finditer (ignorecase pattern) text)) case_number_patterns)"

definition plain_entities :: "EntityType \<Rightarrow> rat \<Rightarrow> rmatch list \<Rightarrow> Entity list" where
  \<comment> \<open>the entity of a match in the scanners that keep \<^verbatim>\<open>match.group(0)\<close> and no metadata\<close>
  "plain_entities ty conf ms =
     map (\<lambda>m. \<lparr>etext = m_group0 m, entity_type = ty, start = int (m_start m),
                 eend = int (m_end m), confidence = conf, metadata = []\<rparr>) ms"

definition extract_courts :: "string \<Rightarrow> Entity list" where
  "extract_courts text =
     concat (map (\<lambda>pattern. plain_entities COURT (9 / 10) (finditer (ignorecase pattern) text))
               court_patterns)"

definition extract_statutes :: "string \<Rightarrow> Entity list" where
  "extract_statutes text =
     concat (map (\<lambda>pattern. plain_entities STATUTE (85 / 100) (finditer (ignorecase pattern) text))
               statute_patterns)"

definition extract_legal_terms_ner :: "string \<Rightarrow> Entity list" where
  \<comment> \<open>\<^verbatim>\<open>LegalNER._extract_legal_terms\<close>\<close>
  "extract_legal_terms_ner text =
     concat (map (\<lambda>pattern. plain_entities LEGAL_TERM (7 / 10) (finditer (ignorecase pattern) text))
               legal_term_patterns)"

definition extract_dates :: "string \<Rightarrow> Entity list" where
  "extract_dates text =
     concat (map (\<lambda>pattern. plain_entities DATE (8 / 10) (finditer pattern text)) date_patterns)"

definition scan_entities :: "string \<Rightarrow> Entity list" where
  \<comment> \<open>the candidates of the six scanners, in the order \<^verbatim>\<open>extract_entities\<close> collects them\<close>
  "scan_entities text =
     extract_sections text @ extract_case_numbers text @ extract_courts text
     @ extract_statutes text @ extract_legal_terms_ner text @ extract_dates text"

definition extract_entities :: "string \<Rightarrow> Entity list" where
  "extract_entities text = remove_overlaps (scan_entities text)"


section \<open>Reciprocal rank fusion (retrieval/hybrid\_retriever.py)\<close>

text \<open>
  A Python \<^verbatim>\<open>dict\<close> keeps its keys in insertion order and an assignment to a key that is
  present keeps the key's place: an association list under \<^const>\<open>AList.update\<close>.
  The iteration order of a Python \<^verbatim>\<open>set\<close> is chosen by the runtime; it is the
  parameter \<open>set_iter\<close>, which receives the elements without repetition and returns
  them in the order of iteration.
\<close>

definition rank_mapping :: "(int \<times> rat) list \<Rightarrow> (int \<times> int) list" where
  \<comment> \<open>\<^verbatim>\<open>for rank, (chunk_id, _) in enumerate(results, start=1): ranks[chunk_id] = rank\<close>\<close>
  "rank_mapping results =
     foldl (\<lambda>ranks (rank, (chunk_id, _)). AList.update chunk_id rank ranks) []
       (enumerate1 results)"

definition reciprocal :: "int \<Rightarrow> py_error + rat" where
  \<comment> \<open>\<^verbatim>\<open>1.0 / n\<close> for an \<^verbatim>\<open>int\<close> \<open>n\<close>: the conversion of \<open>n\<close>, then the float division\<close>
  "reciprocal n = (case float_of_int n of Inl e \<Rightarrow> Inl e | Inr d \<Rightarrow> float_truediv 1 d)"

definition rrf_term :: "(int \<times> int) list \<Rightarrow> int \<Rightarrow> int \<Rightarrow> rat \<Rightarrow> py_error + rat" where
  \<comment> \<open>\<^verbatim>\<open>if chunk_id in ranks: score += 1.0 / (ranks[chunk_id] + self.rrf_k)\<close>\<close>
  "rrf_term ranks rrf_k chunk_id score =
     (case map_of ranks chunk_id of
        None \<Rightarrow> Inr score
      | Some rank \<Rightarrow>
          (case reciprocal (rank + rrf_k) of
             Inl e \<Rightarrow> Inl e
           | Inr q \<Rightarrow> Inr (float_add score q)))"

definition rrf_score :: "(int \<times> int) list \<Rightarrow> (int \<times> int) list \<Rightarrow> int \<Rightarrow> int \<Rightarrow> py_error + rat" where
  \<comment> \<open>the body of the loop over \<^verbatim>\<open>all_chunk_ids\<close>, from \<^verbatim>\<open>score = 0.0\<close>\<close>
  "rrf_score bm25_ranks vector_ranks rrf_k chunk_id =
     (case rrf_term bm25_ranks rrf_k chunk_id 0 of
        Inl e \<Rightarrow> Inl e
      | Inr score \<Rightarrow> rrf_term vector_ranks rrf_k chunk_id score)"

fun rrf_scores_loop ::
  "(int \<times> int) list \<Rightarrow> (int \<times> int) list \<Rightarrow> int \<Rightarrow> int list \<Rightarrow> (int \<times> rat) list
     \<Rightarrow> py_error + (int \<times> rat) list" where
  "rrf_scores_loop bm25_ranks vector_ranks rrf_k [] rrf_scores = Inr rrf_scores"
| "rrf_scores_loop bm25_ranks vector_ranks rrf_k (chunk_id # rest) rrf_scores =
     (case rrf_score bm25_ranks vector_ranks rrf_k chunk_id of
        Inl e \<Rightarrow> Inl e
      | Inr score \<Rightarrow>
          rrf_scores_loop bm25_ranks vector_ranks rrf_k rest
            (AList.update chunk_id score rrf_scores))"

definition reciprocal_rank_fusion ::
  "(int list \<Rightarrow> int list) \<Rightarrow> int \<Rightarrow> (int \<times> rat) list \<Rightarrow> (int \<times> rat) list \<Rightarrow> int
     \<Rightarrow> py_error + (int \<times> rat) list" where
  "reciprocal_rank_fusion set_iter rrf_k bm25_results vector_results top_k =
     (let bm25_ranks = rank_mapping bm25_results;
          vector_ranks = rank_mapping vector_results;
          all_chunk_ids = set_iter (remdups (map fst bm25_ranks @ map fst vector_ranks))
      in case rrf_scores_loop bm25_ranks vector_ranks rrf_k all_chunk_ids [] of
           Inl e \<Rightarrow> Inl e
         | Inr rrf_scores \<Rightarrow>
             Inr (py_prefix top_k (sort_key (\<lambda>x. - snd x) rrf_scores)))"

definition cpython_small_set_iter :: "int list \<Rightarrow> int list" where
  \<comment> \<open>CPython keeps a set of at most four non-negative machine-size integers in a table of
      eight slots, the element \<open>i\<close> in slot \<open>i mod 8\<close> when the slots of the elements
      differ, and iterates over the slots in order: \<^verbatim>\<open>list({8} | {1}) == [8, 1]\<close>\<close>
  "cpython_small_set_iter xs = sort_key (\<lambda>i. i mod 8) xs"

definition set_iteration :: "(int list \<Rightarrow> int list) \<Rightarrow> bool" where
  \<comment> \<open>what every runtime guarantees of the iteration over a set: each element once\<close>
  "set_iteration set_iter =
     (\<forall>xs. distinct xs \<longrightarrow> distinct (set_iter xs) \<and> set (set_iter xs) = set xs)"


section \<open>Lexical and hybrid retrieval (retrieval/hybrid\_retriever.py)\<close>

text \<open>
  The scoring library \<^verbatim>\<open>rank_bm25\<close>, \<^verbatim>\<open>numpy.argsort\<close> and the vector store are outside
  the repository. The index object built by \<^verbatim>\<open>BM25Okapi\<close> is represented by its
  \<^verbatim>\<open>get_scores\<close> function, and \<open>argsort\<close> and the vector retriever are parameters.
\<close>

record BM25Retriever =
  k1_param :: rat
  b_param :: rat
  bm25 :: "(string list \<Rightarrow> rat list) option"
  corpus :: "string list"
  chunk_ids :: "int list"
  is_initialized :: bool

definition BM25Retriever_init :: "rat \<Rightarrow> rat \<Rightarrow> BM25Retriever" where
  \<comment> \<open>\<^verbatim>\<open>BM25Retriever.__init__\<close>\<close>
  "BM25Retriever_init k1 b =
     \<lparr>k1_param = k1, b_param = b, bm25 = None, corpus = [], chunk_ids = [],
      is_initialized = False\<rparr>"

definition tokenize :: "string \<Rightarrow> string list" where
  "tokenize text = py_split (py_lower text)"

definition build_index ::
  "(string list list \<Rightarrow> rat \<Rightarrow> rat \<Rightarrow> string list \<Rightarrow> rat list)
     \<Rightarrow> BM25Retriever \<Rightarrow> string list \<Rightarrow> int list \<Rightarrow> py_error + BM25Retriever" where
  "build_index BM25Okapi self documents ids =
     (if length documents \<noteq> length ids
      then Inl (ValueError ''Documents and chunk_ids must have same length'')
      else let tokenized_corpus = map tokenize documents
           in Inr (self\<lparr>corpus := documents, chunk_ids := ids,
                        bm25 := Some (BM25Okapi tokenized_corpus (k1_param self) (b_param self)),
                        is_initialized := True\<rparr>))"

fun bm25_results_loop :: "int list \<Rightarrow> rat list \<Rightarrow> nat list \<Rightarrow> py_error + (int \<times> rat) list" where
  "bm25_results_loop ids scores [] = Inr []"
| "bm25_results_loop ids scores (idx # rest) =
     (if idx \<ge> length scores then Inl IndexError
      else if scores ! idx > 0
      then (if idx \<ge> length ids then Inl IndexError
            else (case bm25_results_loop ids scores rest of
                    Inl e \<Rightarrow> Inl e
                  | Inr results \<Rightarrow> Inr ((ids ! idx, scores ! idx) # results)))
      else bm25_results_loop ids scores rest)"

definition bm25_retrieve ::
  "(rat list \<Rightarrow> nat list) \<Rightarrow> BM25Retriever \<Rightarrow> string \<Rightarrow> int \<Rightarrow> py_error + (int \<times> rat) list" where
  \<comment> \<open>\<^verbatim>\<open>BM25Retriever.retrieve\<close>\<close>
  "bm25_retrieve argsort self query top_k =
     (if \<not> is_initialized self
      then Inl (ValueError ''BM25 index not initialized. Call build_index() first.'')
      else let tokenized_query = tokenize query
           in case bm25 self of
                None \<Rightarrow> Inl AttributeError
              | Some get_scores \<Rightarrow>
                  let scores = get_scores tokenized_query;
                      top_indices = py_prefix top_k (rev (argsort scores))
                  in bm25_results_loop (chunk_ids self) scores top_indices)"

record HybridRetriever =
  rrf_k :: int
  bm25_retriever :: BM25Retriever
  vector_retriever :: "string \<Rightarrow> int \<Rightarrow> int option \<Rightarrow> py_error + (int \<times> rat) list"

definition hybrid_retrieve ::
  "(int list \<Rightarrow> int list) \<Rightarrow> (rat list \<Rightarrow> nat list) \<Rightarrow> HybridRetriever \<Rightarrow> string \<Rightarrow> int
     \<Rightarrow> int option \<Rightarrow> py_error + (int \<times> rat) list" where
  \<comment> \<open>\<^verbatim>\<open>HybridRetriever.retrieve\<close>: the lexical retriever is called only behind the test of
      \<^verbatim>\<open>_is_initialized\<close>, and \<^verbatim>\<open>bm25_results\<close> stays \<^verbatim>\<open>[]\<close> otherwise\<close>
  "hybrid_retrieve set_iter argsort self query top_k judgment_id =
     (case (if is_initialized (bm25_retriever self)
            then bm25_retrieve argsort (bm25_retriever self) query (top_k * 5)
            else Inr []) of
        Inl e \<Rightarrow> Inl e
      | Inr bm25_results \<Rightarrow>
          (case vector_retriever self query (top_k * 5) judgment_id of
             Inl e \<Rightarrow> Inl e
           | Inr vector_results \<Rightarrow>
               reciprocal_rank_fusion set_iter (rrf_k self) bm25_results vector_results top_k))"

definition stable_argsort :: "rat list \<Rightarrow> nat list" where
  \<comment> \<open>one admissible \<^verbatim>\<open>numpy.argsort\<close>: the indices in ascending order of their scores\<close>
  "stable_argsort scores = sort_key (\<lambda>i. scores ! i) [0 ..< length scores]"

definition fixed_vector_retriever ::
  "(int \<times> rat) list \<Rightarrow> string \<Rightarrow> int \<Rightarrow> int option \<Rightarrow> py_error + (int \<times> rat) list" where
  \<comment> \<open>a vector store that answers every query with the given neighbours\<close>
  "fixed_vector_retriever rows query top_k judgment_id = Inr (py_prefix top_k rows)"

definition spec_rank :: "(int \<times> rat) list \<Rightarrow> int \<Rightarrow> int" where
  \<comment> \<open>the 1-indexed position of a chunk id in a candidate list, as the specification words
      it; the last position when the id is repeated\<close>
  "spec_rank results chunk_id =
     int (length results) - int (length (takeWhile (\<lambda>x. fst x \<noteq> chunk_id) (rev results)))"

definition spec_quotient :: "int \<Rightarrow> (int \<times> rat) list \<Rightarrow> int \<Rightarrow> rat" where
  \<comment> \<open>the specification's \<open>1 / (rank + k)\<close> of a listed chunk, as a float\<close>
  "spec_quotient k results chunk_id =
     (case reciprocal (spec_rank results chunk_id + k) of Inr q \<Rightarrow> q | Inl e \<Rightarrow> 0)"

definition quotients_defined :: "int \<Rightarrow> (int \<times> rat) list \<Rightarrow> bool" where
  \<comment> \<open>no division \<open>1.0 / (rank + k)\<close> for a chunk of the list raises\<close>
  "quotients_defined k results =
     list_all (\<lambda>x. case reciprocal (spec_rank results (fst x) + k) of
                      Inr q \<Rightarrow> True | Inl e \<Rightarrow> False) results"

definition spec_score :: "int \<Rightarrow> (int \<times> rat) list \<Rightarrow> (int \<times> rat) list \<Rightarrow> int \<Rightarrow> rat" where
  \<comment> \<open>the specification's score: the float sum, from \<open>0.0\<close>, of the quotients of the
      retrievers whose list contains the chunk\<close>
  "spec_score k lexical vector chunk_id =
     (let s1 = (if chunk_id \<in> fst ` set lexical
                then float_add 0 (spec_quotient k lexical chunk_id) else 0)
      in if chunk_id \<in> fst ` set vector
         then float_add s1 (spec_quotient k vector chunk_id) else s1)"


section \<open>Whitespace tokens and deduplication\<close>


lemma is_space_blank: "is_space CHR '' ''"
  by (simp add: is_space_def)

lemma split_acc_nospace:
  "\<forall>c\<in>set w. \<not> is_space c \<Longrightarrow> split_acc acc (w @ rest) = split_acc (acc @ w) rest"
  by (induction w arbitrary: acc) auto

lemma split_acc_words:
  "\<forall>c\<in>set acc. \<not> is_space c \<Longrightarrow> x \<in> set (split_acc acc s)
     \<Longrightarrow> x \<noteq> [] \<and> (\<forall>c\<in>set x. \<not> is_space c)"
proof (induction s arbitrary: acc)
  case Nil
  then show ?case by (auto split: if_splits)
next
  case (Cons c cs)
  show ?case
  proof (cases "is_space c")
    case True
    with Cons.prems have "x = acc \<and> acc \<noteq> [] \<or> x \<in> set (split_acc [] cs)"
      by (auto split: if_splits)
    then show ?thesis
    proof
      assume "x = acc \<and> acc \<noteq> []"
      with Cons.prems(1) show ?thesis by simp
    next
      assume "x \<in> set (split_acc [] cs)"
      then show ?thesis using Cons.IH [of "[]"] by simp
    qed
  next
    case False
    with Cons.prems have "x \<in> set (split_acc (acc @ [c]) cs)" by simp
    moreover have "\<forall>d\<in>set (acc @ [c]). \<not> is_space d" using Cons.prems(1) False by auto
    ultimately show ?thesis using Cons.IH by blast
  qed
qed

lemma py_split_words: "x \<in> set (py_split s) \<Longrightarrow> word_ok x"
  unfolding py_split_def word_ok_def using split_acc_words [of "[]" x s] by simp

lemma split_join:
  "\<forall>w\<in>set ws. word_ok w \<Longrightarrow> py_split (py_join '' '' ws) = ws"
proof (induction "'' ''" ws rule: py_join.induct)
  case 1
  then show ?case by (simp add: py_split_def)
next
  case (2 x)
  then have "split_acc [] (x @ []) = split_acc ([] @ x) []"
    by (intro split_acc_nospace) (simp add: word_ok_def)
  with 2 show ?case by (simp add: py_split_def word_ok_def)
next
  case (3 x y ys)
  have x: "word_ok x" using 3 by simp
  have "split_acc [] (x @ '' '' @ py_join '' '' (y # ys)) = split_acc ([] @ x) ('' '' @ py_join '' '' (y # ys))"
    using x by (intro split_acc_nospace) (simp add: word_ok_def)
  also have "\<dots> = x # split_acc [] (py_join '' '' (y # ys))"
    using x by (simp add: is_space_blank word_ok_def)
  also have "\<dots> = x # y # ys" using 3 by (simp add: py_split_def)
  finally show ?case by (simp add: py_split_def)
qed

lemma dedup_fold_inv:
  "fst st = set (map py_lower (snd st)) \<Longrightarrow> distinct (map py_lower (snd st))
   \<Longrightarrow> fst (foldl dedup_step st ws) = set (map py_lower (snd (foldl dedup_step st ws)))
       \<and> distinct (map py_lower (snd (foldl dedup_step st ws)))
       \<and> set (snd (foldl dedup_step st ws)) \<subseteq> set (snd st) \<union> set ws"
proof (induction ws arbitrary: st)
  case Nil
  then show ?case by simp
next
  case (Cons w ws)
  have a: "fst (dedup_step st w) = set (map py_lower (snd (dedup_step st w)))"
    using Cons.prems by (auto simp: dedup_step_def Let_def)
  have b: "distinct (map py_lower (snd (dedup_step st w)))"
    using Cons.prems by (auto simp: dedup_step_def Let_def)
  have c: "set (snd (dedup_step st w)) \<subseteq> set (snd st) \<union> {w}"
    by (auto simp: dedup_step_def Let_def)
  from Cons.IH [OF a b] c show ?case by auto
qed

lemma dedup_fold_distinct:
  "fst st = set (map py_lower (snd st)) \<Longrightarrow> distinct (map py_lower (snd st @ ws))
   \<Longrightarrow> snd (foldl dedup_step st ws) = snd st @ ws"
proof (induction ws arbitrary: st)
  case Nil
  then show ?case by simp
next
  case (Cons w ws)
  have new: "py_lower w \<notin> fst st" using Cons.prems by auto
  then have step: "dedup_step st w = (insert (py_lower w) (fst st), snd st @ [w])"
    by (simp add: dedup_step_def Let_def)
  have "snd (foldl dedup_step (dedup_step st w) ws) = snd (dedup_step st w) @ ws"
    using Cons.prems by (intro Cons.IH) (auto simp: step)
  then show ?case by (simp add: step)
qed

lemma dedup_unique_words:
  "distinct (map py_lower (snd (foldl dedup_step ({}, []) (py_split q))))
   \<and> (\<forall>w\<in>set (snd (foldl dedup_step ({}, []) (py_split q))). word_ok w)"
  using dedup_fold_inv [of "({}, [])" "py_split q"] py_split_words by auto

lemma split_dedup:
  "py_split (deduplicate_query q) = snd (foldl dedup_step ({}, []) (py_split q))"
  unfolding deduplicate_query_def Let_def using dedup_unique_words [of q] split_join by blast

lemma dedup_idem: "deduplicate_query (deduplicate_query q) = deduplicate_query q"
proof -
  let ?u = "snd (foldl dedup_step ({}, []) (py_split q))"
  have "snd (foldl dedup_step ({}, []) ?u) = snd ({}, []) @ ?u"
    using dedup_unique_words [of q] dedup_fold_distinct [of "({}, [])" ?u] by simp
  then show ?thesis
    using split_dedup [of q] by (simp add: deduplicate_query_def Let_def)
qed

lemma dedup_distinct: "distinct (map py_lower (py_split (deduplicate_query q)))"
  using split_dedup [of q] dedup_unique_words [of q] by simp


section \<open>Reciprocal rank fusion: scores and order\<close>

subsection \<open>Rank dictionaries\<close>

lemma alist_update_fresh: "k \<notin> fst ` set al \<Longrightarrow> AList.update k v al = al @ [(k, v)]"
  by (induction al) auto

lemma enumerate1_snoc:
  "enumerate1 (xs @ [x]) = enumerate1 xs @ [(int (length xs) + 1, x)]"
proof -
  have "[1 ..< Suc (Suc (length xs))] = [1 ..< Suc (length xs)] @ [Suc (length xs)]"
    by (rule upt_Suc_append) simp
  then have "map int [1 ..< Suc (length (xs @ [x]))]
          = map int [1 ..< Suc (length xs)] @ [int (length xs) + 1]"
    by (simp del: upt_Suc)
  moreover have "length (map int [1 ..< Suc (length xs)]) = length xs"
    by (simp del: upt_Suc)
  ultimately show ?thesis
    unfolding enumerate1_def by (simp only: zip_append zip.simps list.case)
qed

lemma rank_mapping_Nil: "rank_mapping [] = []"
  by (simp add: rank_mapping_def enumerate1_def)

lemma rank_mapping_snoc:
  "rank_mapping (xs @ [x]) = AList.update (fst x) (int (length xs) + 1) (rank_mapping xs)"
  by (simp add: rank_mapping_def enumerate1_snoc split: prod.splits)

lemma rank_mapping_keys: "fst ` set (rank_mapping xs) = fst ` set xs"
  by (induction xs rule: rev_induct)
     (auto simp: rank_mapping_Nil rank_mapping_snoc AList.dom_update)

lemma rank_mapping_distinct: "distinct (map fst (rank_mapping xs))"
  by (induction xs rule: rev_induct)
     (auto simp: rank_mapping_Nil rank_mapping_snoc intro: AList.distinct_update)

lemma spec_rank_snoc_same: "spec_rank (xs @ [(c, s)]) c = int (length xs) + 1"
  by (simp add: spec_rank_def)

lemma spec_rank_snoc_other: "d \<noteq> c \<Longrightarrow> spec_rank (xs @ [(d, s)]) c = spec_rank xs c"
  by (simp add: spec_rank_def)

lemma rank_mapping_lookup:
  "map_of (rank_mapping xs) c = (if c \<in> fst ` set xs then Some (spec_rank xs c) else None)"
proof (induction xs rule: rev_induct)
  case Nil
  then show ?case by (simp add: rank_mapping_Nil)
next
  case (snoc x xs)
  obtain d s where x: "x = (d, s)" by (cases x)
  have look: "map_of (rank_mapping (xs @ [x])) c
                = ((map_of (rank_mapping xs))(d \<mapsto> int (length xs) + 1)) c"
    by (simp add: rank_mapping_snoc x AList.update_conv')
  show ?case
  proof (cases "c = d")
    case True
    then show ?thesis using look x by (simp add: spec_rank_snoc_same)
  next
    case False
    then have "spec_rank (xs @ [x]) c = spec_rank xs c"
      using x by (simp add: spec_rank_snoc_other)
    then show ?thesis using look snoc.IH x False by auto
  qed
qed

subsection \<open>Scores\<close>

lemma quotients_definedD:
  "quotients_defined k xs \<Longrightarrow> c \<in> fst ` set xs \<Longrightarrow>
     reciprocal (spec_rank xs c + k) = Inr (spec_quotient k xs c)"
  by (auto simp: quotients_defined_def list_all_iff spec_quotient_def split: sum.splits)

lemma rrf_term_spec:
  assumes "quotients_defined k xs"
  shows "rrf_term (rank_mapping xs) k c s
           = Inr (if c \<in> fst ` set xs then float_add s (spec_quotient k xs c) else s)"
proof (cases "c \<in> fst ` set xs")
  case True
  then show ?thesis
    using quotients_definedD [OF assms True]
    by (simp add: rrf_term_def rank_mapping_lookup)
next
  case False
  then show ?thesis by (simp add: rrf_term_def rank_mapping_lookup)
qed

lemma rrf_score_spec:
  assumes "quotients_defined k L" "quotients_defined k V"
  shows "rrf_score (rank_mapping L) (rank_mapping V) k c = Inr (spec_score k L V c)"
  by (simp add: rrf_score_def rrf_term_spec assms spec_score_def Let_def)

lemma rrf_scores_loop_ok:
  "\<forall>c\<in>set ids. rrf_score B V k c = Inr (f c) \<Longrightarrow> distinct ids \<Longrightarrow>
     set ids \<inter> fst ` set acc = {} \<Longrightarrow>
     rrf_scores_loop B V k ids acc = Inr (acc @ map (\<lambda>c. (c, f c)) ids)"
proof (induction ids arbitrary: acc)
  case Nil
  then show ?case by simp
next
  case (Cons c ids)
  have fresh: "c \<notin> fst ` set acc" using Cons.prems(3) by auto
  have "rrf_scores_loop B V k ids (acc @ [(c, f c)])
          = Inr ((acc @ [(c, f c)]) @ map (\<lambda>c. (c, f c)) ids)"
    using Cons.prems by (intro Cons.IH) auto
  then show ?case using Cons.prems(1) fresh by (simp add: alist_update_fresh)
qed

lemma rrf_scores_loop_Inr:
  "rrf_scores_loop B V k ids acc = Inr r \<Longrightarrow> distinct ids \<Longrightarrow>
     set ids \<inter> fst ` set acc = {} \<Longrightarrow>
     \<exists>f. (\<forall>c\<in>set ids. rrf_score B V k c = Inr (f c)) \<and> r = acc @ map (\<lambda>c. (c, f c)) ids"
proof (induction ids arbitrary: acc)
  case Nil
  then show ?case by simp
next
  case (Cons c ids)
  from Cons.prems(1) obtain s where s: "rrf_score B V k c = Inr s"
    and rest: "rrf_scores_loop B V k ids (AList.update c s acc) = Inr r"
    by (auto split: sum.splits)
  have fresh: "c \<notin> fst ` set acc" using Cons.prems(3) by auto
  have "\<exists>f. (\<forall>c\<in>set ids. rrf_score B V k c = Inr (f c))
           \<and> r = (acc @ [(c, s)]) @ map (\<lambda>c. (c, f c)) ids"
    using Cons.prems rest fresh by (intro Cons.IH) (auto simp: alist_update_fresh)
  then obtain f where f: "\<forall>c\<in>set ids. rrf_score B V k c = Inr (f c)"
    and r: "r = (acc @ [(c, s)]) @ map (\<lambda>c. (c, f c)) ids" by blast
  have cn: "c \<notin> set ids" using Cons.prems(2) by simp
  let ?g = "f(c := s)"
  have "\<forall>d\<in>set (c # ids). rrf_score B V k d = Inr (?g d)" using f s by auto
  moreover have "r = acc @ map (\<lambda>d. (d, ?g d)) (c # ids)" using r cn by auto
  ultimately show ?case by blast
qed

lemma py_prefix_take: "\<exists>m. py_prefix n xs = take m xs"
  by (auto simp: py_prefix_def)

lemma all_ids_distinct:
  "set_iteration set_iter \<Longrightarrow>
     distinct (set_iter (remdups (map fst (rank_mapping L) @ map fst (rank_mapping V))))
     \<and> set (set_iter (remdups (map fst (rank_mapping L) @ map fst (rank_mapping V))))
         = fst ` set L \<union> fst ` set V"
proof -
  assume a: "set_iteration set_iter"
  let ?keys = "remdups (map fst (rank_mapping L) @ map fst (rank_mapping V))"
  have "distinct ?keys" by simp
  with a have "distinct (set_iter ?keys) \<and> set (set_iter ?keys) = set ?keys"
    unfolding set_iteration_def by blast
  moreover have "set ?keys = fst ` set L \<union> fst ` set V"
    using rank_mapping_keys [of L] rank_mapping_keys [of V] by auto
  ultimately show ?thesis by simp
qed

subsection \<open>Ties\<close>

lemma filter_scored:
  "map fst (filter (\<lambda>x. snd x = s) (map (\<lambda>c. (c, f c)) ids)) = filter (\<lambda>c. f c = s) ids"
  by (induction ids) auto

text \<open>
  Claim C3, amended: the fusion step sorts by score alone, and the sort is stable, so
  chunk ids whose computed scores (binary64 sums of binary64 quotients) are equal keep the
  order in which the runtime iterates over the set of chunk ids. For every score \<open>s\<close>,
  the ids that the output lists with score \<open>s\<close> are an initial part of the ids with that
  computed score in set iteration order (the truncation to \<open>top_k\<close> may cut the rest);
  the chunk id itself is never compared.
\<close>

theorem rrf_ties:
  assumes it: "set_iteration set_iter"
    and out: "reciprocal_rank_fusion set_iter k L V top_k = Inr out"
  shows "\<exists>rest. map fst (filter (\<lambda>x. snd x = s) out) @ rest
           = filter (\<lambda>c. rrf_score (rank_mapping L) (rank_mapping V) k c = Inr s)
               (set_iter (remdups (map fst (rank_mapping L) @ map fst (rank_mapping V))))"
proof -
  let ?ids = "set_iter (remdups (map fst (rank_mapping L) @ map fst (rank_mapping V)))"
  let ?B = "rank_mapping L" and ?V = "rank_mapping V"
  from out obtain scores where loop: "rrf_scores_loop ?B ?V k ?ids [] = Inr scores"
    and o: "out = py_prefix top_k (sort_key (\<lambda>x. - snd x) scores)"
    by (auto simp: reciprocal_rank_fusion_def Let_def split: sum.splits)
  have d: "distinct ?ids" using all_ids_distinct [OF it] by blast
  from rrf_scores_loop_Inr [OF loop d] obtain f
    where f: "\<forall>c\<in>set ?ids. rrf_score ?B ?V k c = Inr (f c)"
      and sc: "scores = map (\<lambda>c. (c, f c)) ?ids" by auto
  obtain m where m: "out = take m (sort_key (\<lambda>x. - snd x) scores)"
    using o py_prefix_take by metis
  let ?P = "\<lambda>x::int \<times> rat. snd x = s"
  let ?srt = "sort_key (\<lambda>x. - snd x) scores"
  have "filter ?P ?srt = filter (\<lambda>y. - snd y = - s) ?srt" by simp
  also have "\<dots> = filter (\<lambda>y. - snd y = - s) scores" by (rule sort_key_stable)
  finally have st: "filter ?P ?srt = filter ?P scores" by simp
  have "filter ?P out @ filter ?P (drop m ?srt) = filter ?P ?srt"
    unfolding m by (metis append_take_drop_id filter_append)
  then have "map fst (filter ?P out) @ map fst (filter ?P (drop m ?srt))
               = map fst (filter ?P scores)"
    using st by (metis map_append)
  moreover have "map fst (filter ?P scores) = filter (\<lambda>c. f c = s) ?ids"
    unfolding sc by (rule filter_scored)
  moreover have "filter (\<lambda>c. f c = s) ?ids
                   = filter (\<lambda>c. rrf_score ?B ?V k c = Inr s) ?ids"
    using f by (intro filter_cong) auto
  ultimately show ?thesis by metis
qed

subsection \<open>The fused list\<close>

lemma distinct_fst_sort:
  "distinct (map fst xs) \<Longrightarrow> distinct (map fst (sort_key g xs))"
proof -
  assume d: "distinct (map fst xs)"
  have "card (set (map fst (sort_key g xs))) = card (set (map fst xs))" by simp
  also have "\<dots> = length (map fst xs)" using d by (rule distinct_card)
  also have "\<dots> = length (map fst (sort_key g xs))" by simp
  finally show ?thesis by (rule card_distinct)
qed

lemma strictly_decreasing_order:
  fixes f :: "int \<Rightarrow> rat"
  assumes ids: "distinct ids" "set ids = set ids'"
    and dec: "sorted_wrt (\<lambda>c d. f d < f c) ids'"
  shows "sort_key (\<lambda>x. - snd x) (map (\<lambda>c. (c, f c)) ids) = map (\<lambda>c. (c, f c)) ids'"
proof -
  let ?p = "\<lambda>c. (c, f c)"
  let ?g = "\<lambda>x::int \<times> rat. - snd x"
  let ?xs = "sort_key ?g (map ?p ids)" and ?ys = "map ?p ids'"
  have "sorted_wrt (\<lambda>c d. - f c < - f d) ids'" using dec by simp
  then have "sorted_wrt (<) (map (\<lambda>c. - f c) ids')" by (simp add: sorted_wrt_map)
  then have sd: "sorted (map (\<lambda>c. - f c) ids')" "distinct (map (\<lambda>c. - f c) ids')"
    by (simp_all add: strict_sorted_iff)
  have inj: "inj_on (\<lambda>c. - f c) (set ids')" and d': "distinct ids'"
    using sd(2) by (simp_all add: distinct_map)
  have injg: "inj_on ?g (set (map ?p ids))"
    using inj ids(2) by (auto simp: inj_on_def)
  have same: "set ?xs = set ?ys" using ids(2) by auto
  have "sorted (map ?g ?xs)" by (rule sorted_sort_key)
  moreover have "distinct (map ?g ?xs)"
    using ids(1) injg by (simp add: distinct_map inj_on_def)
  moreover have "sorted (map ?g ?ys)" using sd(1) by (simp add: comp_def)
  moreover have "distinct (map ?g ?ys)" using sd(2) by (simp add: comp_def)
  moreover have "set (map ?g ?xs) = set (map ?g ?ys)"
    using same by (simp only: set_map)
  ultimately have "map ?g ?xs = map ?g ?ys" by (rule sorted_distinct_set_unique)
  moreover have "inj_on ?g (set ?xs \<union> set ?ys)"
    using injg same by simp
  ultimately show ?thesis by (simp only: inj_on_map_eq_map)
qed

text \<open>
  Claim C2, amended: whenever no division \<open>1.0 / (rank + k)\<close> for a listed chunk raises
  (\<^verbatim>\<open>ZeroDivisionError\<close> for \<open>rank + k = 0\<close>, \<^verbatim>\<open>OverflowError\<close> for \<open>rank + k\<close> beyond
  the binary64 range), the fused score of each chunk id is the binary64 sum, from \<open>0.0\<close>,
  of the binary64 quotients \<open>1.0 / (rank + k)\<close> of the retrievers whose list contains it,
  the rank being its 1-indexed position in that list (the last one when the id is
  repeated), with no contribution from a list it is absent from; the result is sorted by
  this score descending and cut by the slice \<open>[:top_n]\<close>, the first \<open>top_n\<close> entries for
  \<open>top_n \<ge> 0\<close>. A chunk in one list only scores \<open>0.0 + 1.0 / (r + k)\<close>; fusing a list
  with itself gives every chunk its quotient added twice, and keeps the order of the list
  whenever these scores strictly decrease along the list.
\<close>

theorem rrf_fusion:
  assumes it: "set_iteration set_iter"
    and ql: "quotients_defined k lexical" and qv: "quotients_defined k vector"
  shows "\<exists>scored.
      reciprocal_rank_fusion set_iter k lexical vector top_n = Inr (py_prefix top_n scored)
    \<and> (0 \<le> top_n \<longrightarrow> py_prefix top_n scored = take (nat top_n) scored)
    \<and> sorted (map (\<lambda>x. - snd x) scored)
    \<and> distinct (map fst scored)
    \<and> fst ` set scored = fst ` set lexical \<union> fst ` set vector
    \<and> (\<forall>x\<in>set scored. snd x = spec_score k lexical vector (fst x))
    \<and> (\<forall>x\<in>set scored. fst x \<notin> fst ` set vector \<longrightarrow>
          snd x = float_add 0 (spec_quotient k lexical (fst x)))
    \<and> (\<forall>x\<in>set scored. fst x \<notin> fst ` set lexical \<longrightarrow>
          snd x = float_add 0 (spec_quotient k vector (fst x)))
    \<and> (vector = lexical \<longrightarrow>
          (\<forall>x\<in>set scored.
             snd x = float_add (float_add 0 (spec_quotient k lexical (fst x)))
                       (spec_quotient k lexical (fst x)))
          \<and> (sorted_wrt (\<lambda>x y. spec_score k lexical lexical (fst y)
                                 < spec_score k lexical lexical (fst x)) lexical
               \<longrightarrow> map fst scored = map fst lexical))"
proof -
  let ?ids = "set_iter (remdups (map fst (rank_mapping lexical) @ map fst (rank_mapping vector)))"
  let ?f = "spec_score k lexical vector"
  let ?scores = "map (\<lambda>c. (c, ?f c)) ?ids"
  let ?scored = "sort_key (\<lambda>x. - snd x) ?scores"
  have d: "distinct ?ids" and s: "set ?ids = fst ` set lexical \<union> fst ` set vector"
    using all_ids_distinct [OF it] by blast+
  have "\<forall>c\<in>set ?ids. rrf_score (rank_mapping lexical) (rank_mapping vector) k c = Inr (?f c)"
    by (simp add: rrf_score_spec [OF ql qv])
  then have "rrf_scores_loop (rank_mapping lexical) (rank_mapping vector) k ?ids []
               = Inr ([] @ ?scores)"
    using d by (intro rrf_scores_loop_ok) auto
  then have 1: "reciprocal_rank_fusion set_iter k lexical vector top_n
                  = Inr (py_prefix top_n ?scored)"
    by (simp add: reciprocal_rank_fusion_def Let_def)
  have 2: "0 \<le> top_n \<longrightarrow> py_prefix top_n ?scored = take (nat top_n) ?scored"
    by (simp add: py_prefix_def)
  have 3: "sorted (map (\<lambda>x. - snd x) ?scored)" by (rule sorted_sort_key)
  have "distinct (map fst ?scores)" using d by (simp add: comp_def)
  then have 4: "distinct (map fst ?scored)" by (rule distinct_fst_sort)
  have 5: "fst ` set ?scored = fst ` set lexical \<union> fst ` set vector"
    using s by (simp add: image_image)
  have 6: "\<forall>x\<in>set ?scored. snd x = ?f (fst x)" by auto
  have 7: "\<forall>x\<in>set ?scored. fst x \<notin> fst ` set vector \<longrightarrow>
             snd x = float_add 0 (spec_quotient k lexical (fst x))"
    using s by (auto simp: spec_score_def Let_def)
  have 8: "\<forall>x\<in>set ?scored. fst x \<notin> fst ` set lexical \<longrightarrow>
             snd x = float_add 0 (spec_quotient k vector (fst x))"
    using s by (auto simp: spec_score_def Let_def)
  have 9: "vector = lexical \<longrightarrow>
          (\<forall>x\<in>set ?scored.
             snd x = float_add (float_add 0 (spec_quotient k lexical (fst x)))
                       (spec_quotient k lexical (fst x)))
          \<and> (sorted_wrt (\<lambda>x y. spec_score k lexical lexical (fst y)
                                 < spec_score k lexical lexical (fst x)) lexical
               \<longrightarrow> map fst ?scored = map fst lexical)"
  proof (intro impI conjI)
    assume v: "vector = lexical"
    show "\<forall>x\<in>set ?scored.
             snd x = float_add (float_add 0 (spec_quotient k lexical (fst x)))
                       (spec_quotient k lexical (fst x))"
      using s v by (auto simp: spec_score_def Let_def)
  next
    assume v: "vector = lexical"
      and dec: "sorted_wrt (\<lambda>x y. spec_score k lexical lexical (fst y)
                                 < spec_score k lexical lexical (fst x)) lexical"
    have sid: "set ?ids = set (map fst lexical)" using s v by simp
    have "sorted_wrt (\<lambda>c e. ?f e < ?f c) (map fst lexical)"
      using dec v by (simp add: sorted_wrt_map)
    from strictly_decreasing_order [OF d sid this]
    show "map fst ?scored = map fst lexical" by (simp add: comp_def)
  qed
  from 1 2 3 4 5 6 7 8 9 show ?thesis by blast
qed

lemma cpython_small_set_iteration: "set_iteration cpython_small_set_iter"
  by (simp add: set_iteration_def cpython_small_set_iter_def)

text \<open>
  Claim C2, as stated, quantifies over every fusion parameter \<open>k\<close>. With \<open>k = -1\<close> the
  divisor \<open>rank + k\<close> of the first candidate is zero and the fusion raises
  \<^verbatim>\<open>ZeroDivisionError\<close> instead of returning scores.
\<close>

theorem rrf_fusion_counterexample:
  "reciprocal_rank_fusion cpython_small_set_iter (- 1) [(7, 5 / 2)] [] 10
     = Inl ZeroDivisionError"
  by code_simp

theorem rrf_fusion_witness:
  "set_iteration cpython_small_set_iter
   \<and> quotients_defined 60 [(1, 5 / 2), (2, 2)]
   \<and> quotients_defined 60 [(2, 9 / 10), (3, 8 / 10), (1, 7 / 10)]
   \<and> reciprocal_rank_fusion cpython_small_set_iter 60
         [(1, 5 / 2), (2, 2)] [(2, 9 / 10), (3, 8 / 10), (1, 7 / 10)] 2
       = Inr [(2, 146468205755307 / 4503599627370496), (1, 2325043367344019 / 72057594037927936)]
   \<and> (\<exists>scored.
        reciprocal_rank_fusion cpython_small_set_iter 60
          [(1, 5 / 2), (2, 2)] [(2, 9 / 10), (3, 8 / 10), (1, 7 / 10)] 2
          = Inr (py_prefix 2 scored)
        \<and> sorted (map (\<lambda>x. - snd x) scored)
        \<and> (\<forall>x\<in>set scored.
              snd x = spec_score 60 [(1, 5 / 2), (2, 2)]
                        [(2, 9 / 10), (3, 8 / 10), (1, 7 / 10)] (fst x)))
   \<and> sorted_wrt (\<lambda>x y. spec_score 60 [(1, 5 / 2), (2, 2)] [(1, 5 / 2), (2, 2)] (fst y)
                        < spec_score 60 [(1, 5 / 2), (2, 2)] [(1, 5 / 2), (2, 2)] (fst x))
        [(1 :: int, 5 / 2 :: rat), (2, 2)]
   \<and> (\<exists>scored.
        reciprocal_rank_fusion cpython_small_set_iter 60
          [(1, 5 / 2), (2, 2)] [(1, 5 / 2), (2, 2)] 2 = Inr (py_prefix 2 scored)
        \<and> map fst scored = map fst [(1 :: int, 5 / 2 :: rat), (2, 2)])"
proof -
  have q1: "quotients_defined 60 [(1, 5 / 2), (2, 2)]" by code_simp
  have q2: "quotients_defined 60 [(2, 9 / 10), (3, 8 / 10), (1, 7 / 10)]" by code_simp
  have v: "reciprocal_rank_fusion cpython_small_set_iter 60
         [(1, 5 / 2), (2, 2)] [(2, 9 / 10), (3, 8 / 10), (1, 7 / 10)] 2
       = Inr [(2, 146468205755307 / 4503599627370496), (1, 2325043367344019 / 72057594037927936)]"
    by code_simp
  have dec: "sorted_wrt (\<lambda>x y. spec_score 60 [(1, 5 / 2), (2, 2)] [(1, 5 / 2), (2, 2)] (fst y)
                        < spec_score 60 [(1, 5 / 2), (2, 2)] [(1, 5 / 2), (2, 2)] (fst x))
        [(1 :: int, 5 / 2 :: rat), (2, 2)]"
    by code_simp
  have e1: "\<exists>scored.
        reciprocal_rank_fusion cpython_small_set_iter 60
          [(1, 5 / 2), (2, 2)] [(2, 9 / 10), (3, 8 / 10), (1, 7 / 10)] 2
          = Inr (py_prefix 2 scored)
        \<and> sorted (map (\<lambda>x. - snd x) scored)
        \<and> (\<forall>x\<in>set scored.
              snd x = spec_score 60 [(1, 5 / 2), (2, 2)]
                        [(2, 9 / 10), (3, 8 / 10), (1, 7 / 10)] (fst x))"
    using rrf_fusion [OF cpython_small_set_iteration q1 q2, of 2]
    by (elim exE conjE) (intro exI conjI; assumption)
  have e2: "\<exists>scored.
        reciprocal_rank_fusion cpython_small_set_iter 60
          [(1, 5 / 2), (2, 2)] [(1, 5 / 2), (2, 2)] 2 = Inr (py_prefix 2 scored)
        \<and> map fst scored = map fst [(1 :: int, 5 / 2 :: rat), (2, 2)]"
  proof -
    let ?L = "[(1 :: int, 5 / 2 :: rat), (2, 2)]"
    from rrf_fusion [OF cpython_small_set_iteration q1 q1, of 2] obtain scored where
      r: "reciprocal_rank_fusion cpython_small_set_iter 60 ?L ?L 2 = Inr (py_prefix 2 scored)"
      and i: "?L = ?L \<longrightarrow>
          (\<forall>x\<in>set scored.
             snd x = float_add (float_add 0 (spec_quotient 60 ?L (fst x)))
                       (spec_quotient 60 ?L (fst x)))
          \<and> (sorted_wrt (\<lambda>x y. spec_score 60 ?L ?L (fst y) < spec_score 60 ?L ?L (fst x)) ?L
               \<longrightarrow> map fst scored = map fst ?L)"
      by (elim exE conjE) (rule that; assumption)
    from i dec have "map fst scored = map fst [(1 :: int, 5 / 2 :: rat), (2, 2)]" by blast
    with r show ?thesis by blast
  qed
  show ?thesis
    by (intro conjI) (rule cpython_small_set_iteration q1 q2 v e1 dec e2)+
qed

text \<open>
  Claim C3, as stated: of two chunk ids with equal scores the smaller one comes first.
  Chunk 8 is the only lexical candidate and chunk 1 the only vector candidate; both score
  the binary64 number nearest to \<open>1 / 61\<close>, and the result lists 8 before 1.
\<close>

theorem rrf_ties_counterexample:
  "reciprocal_rank_fusion cpython_small_set_iter 60 [(8, 5 / 2)] [(1, 9 / 10)] 10
     = Inr [(8, 4725088133634619 / 288230376151711744),
            (1, 4725088133634619 / 288230376151711744)]"
  by code_simp

theorem rrf_ties_witness:
  "set_iteration cpython_small_set_iter
   \<and> reciprocal_rank_fusion cpython_small_set_iter 60 [(8, 5 / 2)] [(1, 9 / 10)] 10
       = Inr [(8, 4725088133634619 / 288230376151711744),
              (1, 4725088133634619 / 288230376151711744)]
   \<and> (\<exists>rest. map fst (filter (\<lambda>x. snd x = 4725088133634619 / 288230376151711744)
                       [(8 :: int, 4725088133634619 / 288230376151711744 :: rat),
                        (1, 4725088133634619 / 288230376151711744)]) @ rest
         = filter (\<lambda>c. rrf_score (rank_mapping [(8, 5 / 2)]) (rank_mapping [(1, 9 / 10)]) 60 c
                        = Inr (4725088133634619 / 288230376151711744))
             (cpython_small_set_iter
               (remdups (map fst (rank_mapping [(8, 5 / 2)])
                         @ map fst (rank_mapping [(1, 9 / 10)])))))"
proof -
  have v: "reciprocal_rank_fusion cpython_small_set_iter 60 [(8, 5 / 2)] [(1, 9 / 10)] 10
       = Inr [(8, 4725088133634619 / 288230376151711744),
              (1, 4725088133634619 / 288230376151711744)]"
    by code_simp
  from rrf_ties [OF cpython_small_set_iteration v, of "4725088133634619 / 288230376151711744"]
  show ?thesis using cpython_small_set_iteration v by blast
qed


section \<open>Lexical retrieval before the index is built\<close>

text \<open>
  Claim C7, as stated: lexical retrieval before \<^verbatim>\<open>build_index\<close> surfaces an error both in
  the standalone retriever and inside hybrid retrieval. The hybrid retriever does not:
  with a fresh lexical retriever it answers from the vector side alone and returns a result.
\<close>

theorem hybrid_uninitialized_counterexample:
  "hybrid_retrieve cpython_small_set_iter stable_argsort
     \<lparr>rrf_k = 60, bm25_retriever = BM25Retriever_init (3 / 2) (3 / 4),
      vector_retriever = fixed_vector_retriever [(7, 9 / 10)]\<rparr> ''murder'' 20 None
   = Inr [(7, 4725088133634619 / 288230376151711744)]"
  by code_simp

text \<open>
  Claim C7, amended: while the index has not been built the standalone lexical retriever
  raises \<^verbatim>\<open>ValueError\<close>, and hybrid retrieval skips the lexical retriever behind its test of
  \<^verbatim>\<open>_is_initialized\<close>: it raises nothing for the missing index and returns the fusion of
  an empty lexical list with the vector results.
\<close>

theorem lexical_index_not_ready:
  "\<not> is_initialized self \<Longrightarrow>
     bm25_retrieve argsort self query top_k
       = Inl (ValueError ''BM25 index not initialized. Call build_index() first.'')
     \<and> (\<not> is_initialized (bm25_retriever h) \<longrightarrow>
          hybrid_retrieve set_iter argsort h query top_k judgment_id
            = (case vector_retriever h query (top_k * 5) judgment_id of
                 Inl e \<Rightarrow> Inl e
               | Inr vector_results \<Rightarrow>
                   reciprocal_rank_fusion set_iter (rrf_k h) [] vector_results top_k))"
  by (simp add: bm25_retrieve_def hybrid_retrieve_def)

theorem lexical_index_not_ready_witness:
  "\<not> is_initialized (BM25Retriever_init (3 / 2) (3 / 4))
   \<and> bm25_retrieve stable_argsort (BM25Retriever_init (3 / 2) (3 / 4)) ''murder'' 20
       = Inl (ValueError ''BM25 index not initialized. Call build_index() first.'')
   \<and> hybrid_retrieve cpython_small_set_iter stable_argsort
        \<lparr>rrf_k = 60, bm25_retriever = BM25Retriever_init (3 / 2) (3 / 4),
         vector_retriever = fixed_vector_retriever [(7, 9 / 10)]\<rparr> ''murder'' 20 None
       = reciprocal_rank_fusion cpython_small_set_iter 60 [] [(7, 9 / 10)] 20"
proof -
  have u: "\<not> is_initialized (BM25Retriever_init (3 / 2) (3 / 4))"
    by (simp add: BM25Retriever_init_def)
  show ?thesis
    using u lexical_index_not_ready [OF u, where argsort = stable_argsort
        and query = "''murder''" and top_k = 20 and set_iter = cpython_small_set_iter
        and judgment_id = None
        and h = "\<lparr>rrf_k = 60, bm25_retriever = BM25Retriever_init (3 / 2) (3 / 4),
          vector_retriever = fixed_vector_retriever [(7, 9 / 10)]\<rparr>"]
    by (simp add: fixed_vector_retriever_def py_prefix_def)
qed

end
